theory Spec2Isabelle
  imports Main "HOL-Library.Word"
begin

unbundle bit_operations_syntax

section \<open>Python values used by collator.py\<close>

text \<open>
  Python \<open>str\<close> values are modelled as \<open>string\<close> (a list of characters), Python
  \<open>bytes\<close> as lists of 8-bit words. Exceptions are values of the type \<open>error\<close>;
  a computation that may raise returns \<open>error + 'a\<close>, with \<open>Inl\<close> for the exception.
\<close>

datatype error = IndexError | AttributeError | OSError | RecursionError

type_synonym byte = "8 word"

abbreviation slash :: char where
  "slash \<equiv> CHR ''/''"

abbreviation backslash :: char where
  "backslash \<equiv> CHR 0x5C"

abbreviation newline :: char where
  "newline \<equiv> CHR 0x0A"

text \<open>
  \<open>s.split(sep)\<close> with a one-character separator: the pieces between the occurrences
  of \<open>sep\<close>, empty pieces included; the result is never empty.
\<close>

fun str_split :: "char \<Rightarrow> string \<Rightarrow> string list" where
  "str_split sep [] = [[]]"
| "str_split sep (c # cs) =
     (if c = sep then [] # str_split sep cs
      else (case str_split sep cs of
              w # ws \<Rightarrow> (c # w) # ws
            | [] \<Rightarrow> [[c]]))"

text \<open>\<open>sep.join(xs)\<close>, used to write down paths from their segments.\<close>

fun str_join :: "char \<Rightarrow> string list \<Rightarrow> string" where
  "str_join sep [] = []"
| "str_join sep [w] = w"
| "str_join sep (w # v # ws) = w @ sep # str_join sep (v # ws)"

text \<open>\<open>s.replace(old, new)\<close> for one-character \<open>old\<close> and \<open>new\<close>.\<close>

definition str_replace :: "char \<Rightarrow> char \<Rightarrow> string \<Rightarrow> string" where
  "str_replace old new s = map (\<lambda>c. if c = old then new else c) s"

text \<open>\<open>xs[i]\<close> for a constant index \<open>i \<ge> 0\<close>: raises \<open>IndexError\<close> out of range.\<close>

definition py_index :: "'a list \<Rightarrow> nat \<Rightarrow> error + 'a" where
  "py_index xs i = (if i < length xs then Inr (xs ! i) else Inl IndexError)"

section \<open>os.path (posixpath)\<close>

text \<open>
  \<open>os.path.basename(p)\<close>: \<open>i = p.rfind('/') + 1; return p[i:]\<close>, the part of \<open>p\<close> after
  its last slash.
\<close>

fun basename :: "string \<Rightarrow> string" where
  "basename [] = []"
| "basename (c # cs) =
     (if slash \<in> set cs then basename cs
      else if c = slash then cs
      else c # cs)"

text \<open>\<open>os.path.join(a, b)\<close> for two arguments.\<close>

definition path_join :: "string \<Rightarrow> string \<Rightarrow> string" where
  "path_join a b =
     (if b \<noteq> [] \<and> hd b = slash then b
      else if a = [] \<or> last a = slash then a @ b
      else a @ slash # b)"

section \<open>CollatorFile\<close>

text \<open>
  The tag container of the tag reader: \<open>audiofile.tag\<close> is \<open>None\<close> or an object
  whose fields \<open>title\<close>, \<open>artist\<close> and \<open>album\<close> are each a string or \<open>None\<close>;
  \<open>eyed3.load\<close> itself returns \<open>None\<close> for a file it does not recognise.
\<close>

record tag =
  title :: "string option"
  artist :: "string option"
  album :: "string option"

record audiofile =
  tag :: "tag option"

record CollatorFile =
  fname :: string
  hash :: string
  audiofile :: "audiofile option"

definition path_elements :: "CollatorFile \<Rightarrow> string list" where
  "path_elements self = str_split slash (fname self)"

definition path_artist :: "CollatorFile \<Rightarrow> error + string" where
  "path_artist self = py_index (path_elements self) 4"

definition path_album :: "CollatorFile \<Rightarrow> error + string" where
  "path_album self = py_index (path_elements self) 5"

text \<open>
  The tag accessors read \<open>self.audiofile.tag.<field>\<close> inside
  \<open>try: ... except AttributeError: pass\<close>. Reading an attribute of \<open>None\<close> raises
  \<open>AttributeError\<close>; the handler leaves the result at its initial \<open>None\<close>.
\<close>

definition getattr_tag :: "audiofile option \<Rightarrow> error + tag option" where
  "getattr_tag af = (case af of None \<Rightarrow> Inl AttributeError | Some a \<Rightarrow> Inr (tag a))"

definition getattr_field :: "(tag \<Rightarrow> string option) \<Rightarrow> tag option \<Rightarrow> error + string option" where
  "getattr_field field t = (case t of None \<Rightarrow> Inl AttributeError | Some tg \<Rightarrow> Inr (field tg))"

definition lookup_tag :: "(tag \<Rightarrow> string option) \<Rightarrow> CollatorFile \<Rightarrow> error + string option" where
  "lookup_tag field self =
     (case getattr_tag (audiofile self) of
        Inl e \<Rightarrow> Inl e
      | Inr t \<Rightarrow> getattr_field field t)"

definition except_AttributeError :: "error + string option \<Rightarrow> error + string option" where
  "except_AttributeError r =
     (case r of
        Inl AttributeError \<Rightarrow> Inr None
      | Inl e \<Rightarrow> Inl e
      | Inr v \<Rightarrow> Inr v)"

definition title_tag :: "CollatorFile \<Rightarrow> error + string option" where
  "title_tag self = except_AttributeError (lookup_tag title self)"

definition album_tag :: "CollatorFile \<Rightarrow> error + string option" where
  "album_tag self = except_AttributeError (lookup_tag album self)"

definition artist_tag :: "CollatorFile \<Rightarrow> error + string option" where
  "artist_tag self = except_AttributeError (lookup_tag artist self)"

subsection \<open>The regular expression of \<open>is_audio_file\<close>\<close>

text \<open>
  The fragment of Python's \<open>re\<close> syntax that the pattern \<open>.+\.(mp3|m4a)$\<close> uses.
  \<open>Dot\<close> is \<open>.\<close> (any character except a newline, as \<open>re.DOTALL\<close> is not set),
  \<open>Lit c\<close> a literal character, \<open>Plus\<close> the greedy \<open>+\<close> on a one-character item,
  \<open>Eol\<close> is \<open>$\<close> (without \<open>re.MULTILINE\<close>: the end of the string, or just before
  a newline that ends the string).
\<close>

datatype item = Dot | Lit char

datatype regex =
    Item item
  | Plus item
  | Seq regex regex
  | Alt regex regex
  | Eol

text \<open>
  \<open>re.IGNORECASE\<close> on the ASCII letters of the pattern: a literal letter matches
  itself in either case. No other character lower-cases to an ASCII letter or digit
  among the 8-bit characters of \<open>char\<close>.
\<close>

definition ascii_lower :: "char \<Rightarrow> char" where
  "ascii_lower c =
     (case map_of (zip ''ABCDEFGHIJKLMNOPQRSTUVWXYZ'' ''abcdefghijklmnopqrstuvwxyz'') c of
        None \<Rightarrow> c
      | Some l \<Rightarrow> l)"

fun item_matches :: "bool \<Rightarrow> item \<Rightarrow> char \<Rightarrow> bool" where
  "item_matches ic Dot x = (x \<noteq> newline)"
| "item_matches ic (Lit c) x = (if ic then ascii_lower x = ascii_lower c else x = c)"

text \<open>
  \<open>plus_rests ic a s\<close>: what is left of \<open>s\<close> after \<open>a+\<close> has matched at its start,
  the longest match first, as the backtracking matcher tries them.
\<close>

fun plus_rests :: "bool \<Rightarrow> item \<Rightarrow> string \<Rightarrow> string list" where
  "plus_rests ic a [] = []"
| "plus_rests ic a (x # xs) = (if item_matches ic a x then plus_rests ic a xs @ [xs] else [])"

text \<open>\<open>rests ic r s\<close>: every remainder of \<open>s\<close> that a match of \<open>r\<close> at the start of \<open>s\<close> can leave.\<close>

fun rests :: "bool \<Rightarrow> regex \<Rightarrow> string \<Rightarrow> string list" where
  "rests ic (Item a) s =
     (case s of [] \<Rightarrow> [] | x # xs \<Rightarrow> if item_matches ic a x then [xs] else [])"
| "rests ic (Plus a) s = plus_rests ic a s"
| "rests ic (Seq r1 r2) s = concat (map (rests ic r2) (rests ic r1 s))"
| "rests ic (Alt r1 r2) s = rests ic r1 s @ rests ic r2 s"
| "rests ic Eol s = (if s = [] \<or> s = [newline] then [s] else [])"

text \<open>
  \<open>pattern.match(s)\<close> looks for a match at position 0 only; the match object it returns
  is truthy, \<open>None\<close> is not.
\<close>

definition re_match :: "bool \<Rightarrow> regex \<Rightarrow> string \<Rightarrow> bool" where
  "re_match ic r s = (rests ic r s \<noteq> [])"

text \<open>A literal of three characters, such as \<open>mp3\<close>.\<close>

definition literal3 :: "char \<Rightarrow> char \<Rightarrow> char \<Rightarrow> regex" where
  "literal3 a b c = Seq (Item (Lit a)) (Seq (Item (Lit b)) (Item (Lit c)))"

text \<open>\<open>re.compile(".+\.(mp3|m4a)$", re.IGNORECASE)\<close>\<close>

definition iaf_re :: regex where
  "iaf_re =
     Seq (Plus Dot)
       (Seq (Item (Lit CHR ''.''))
         (Seq (Alt (literal3 CHR ''m'' CHR ''p'' CHR ''3'') (literal3 CHR ''m'' CHR ''4'' CHR ''a''))
            Eol))"

definition is_audio_file :: "CollatorFile \<Rightarrow> bool" where
  "is_audio_file self = re_match True iaf_re (basename (fname self))"

section \<open>hashlib.sha1\<close>

text \<open>
  \<open>hashlib.sha1()\<close> is the SHA-1 of FIPS 180-4 behind a streaming interface:
  \<open>update\<close> compresses every complete 64-byte block of the data fed so far and keeps the
  rest, \<open>hexdigest\<close> pads what is pending and prints the five 32-bit registers.
\<close>

type_synonym word32 = "32 word"

type_synonym sha1_regs = "word32 \<times> word32 \<times> word32 \<times> word32 \<times> word32"

definition rotl32 :: "nat \<Rightarrow> word32 \<Rightarrow> word32" where
  "rotl32 n w = push_bit n w OR drop_bit (32 - n) w"

definition be32 :: "byte list \<Rightarrow> word32" where
  "be32 bs = foldl (\<lambda>w b. push_bit 8 w OR ucast b) 0 bs"

fun block_words :: "byte list \<Rightarrow> word32 list" where
  "block_words (a # b # c # d # rest) = be32 [a, b, c, d] # block_words rest"
| "block_words _ = []"

fun expand :: "nat \<Rightarrow> word32 list \<Rightarrow> word32 list" where
  "expand 0 w = w"
| "expand (Suc n) w =
     (let t = length w in
      expand n (w @ [rotl32 1 (w ! (t - 3) XOR w ! (t - 8) XOR w ! (t - 14) XOR w ! (t - 16))]))"

definition sha1_f :: "nat \<Rightarrow> word32 \<Rightarrow> word32 \<Rightarrow> word32 \<Rightarrow> word32" where
  "sha1_f t b c d =
     (if t < 20 then (b AND c) OR (NOT b AND d)
      else if t < 40 then b XOR c XOR d
      else if t < 60 then (b AND c) OR (b AND d) OR (c AND d)
      else b XOR c XOR d)"

definition sha1_k :: "nat \<Rightarrow> word32" where
  "sha1_k t =
     (if t < 20 then 0x5A827999
      else if t < 40 then 0x6ED9EBA1
      else if t < 60 then 0x8F1BBCDC
      else 0xCA62C1D6)"

fun sha1_round :: "sha1_regs \<Rightarrow> nat \<times> word32 \<Rightarrow> sha1_regs" where
  "sha1_round (a, b, c, d, e) (t, w) =
     (rotl32 5 a + sha1_f t b c d + e + sha1_k t + w, a, rotl32 30 b, c, d)"

fun sha1_compress :: "sha1_regs \<Rightarrow> byte list \<Rightarrow> sha1_regs" where
  "sha1_compress (h0, h1, h2, h3, h4) block =
     (case foldl sha1_round (h0, h1, h2, h3, h4) (enumerate 0 (expand 64 (block_words block))) of
        (a, b, c, d, e) \<Rightarrow> (h0 + a, h1 + b, h2 + c, h3 + d, h4 + e))"

definition sha1_iv :: sha1_regs where
  "sha1_iv = (0x67452301, 0xEFCDAB89, 0x98BADCFE, 0x10325476, 0xC3D2E1F0)"

text \<open>Compress the complete blocks at the front of the data; return what is left over.\<close>

function absorb :: "sha1_regs \<Rightarrow> byte list \<Rightarrow> sha1_regs \<times> byte list" where
  "absorb h d = (if length d < 64 then (h, d) else absorb (sha1_compress h (take 64 d)) (drop 64 d))"
  by pat_completeness auto
termination
  by (relation "measure (\<lambda>(h, d). length d)") auto

declare absorb.simps [simp del]

record sha1_hasher =
  regs :: sha1_regs
  pending :: "byte list"
  fed :: nat

definition sha1_new :: sha1_hasher where
  "sha1_new = \<lparr>regs = sha1_iv, pending = [], fed = 0\<rparr>"

definition sha1_update :: "sha1_hasher \<Rightarrow> byte list \<Rightarrow> sha1_hasher" where
  "sha1_update hasher buf =
     (case absorb (regs hasher) (pending hasher @ buf) of
        (h, rest) \<Rightarrow> \<lparr>regs = h, pending = rest, fed = fed hasher + length buf\<rparr>)"

text \<open>
  The padding: a byte \<open>0x80\<close>, zero bytes up to 56 modulo 64, and the length of the
  message in bits as a 64-bit big-endian number.
\<close>

definition be64 :: "nat \<Rightarrow> byte list" where
  "be64 n = map (\<lambda>i. ucast (drop_bit (8 * (7 - i)) (word_of_nat n :: 64 word))) [0..<8]"

definition sha1_padding :: "nat \<Rightarrow> byte list" where
  "sha1_padding n = 0x80 # replicate ((119 - n mod 64) mod 64) 0 @ be64 (8 * n)"

definition sha1_digest :: "sha1_hasher \<Rightarrow> sha1_regs" where
  "sha1_digest hasher =
     fst (absorb (regs hasher) (pending hasher @ sha1_padding (fed hasher)))"

definition hex_digit :: "word32 \<Rightarrow> char" where
  "hex_digit w = ''0123456789abcdef'' ! unat (w AND 0xF)"

definition hex32 :: "word32 \<Rightarrow> string" where
  "hex32 w = map (\<lambda>i. hex_digit (drop_bit (4 * (7 - i)) w)) [0..<8]"

definition sha1_hexdigest :: "sha1_hasher \<Rightarrow> string" where
  "sha1_hexdigest hasher =
     (case sha1_digest hasher of
        (h0, h1, h2, h3, h4) \<Rightarrow> hex32 h0 @ hex32 h1 @ hex32 h2 @ hex32 h3 @ hex32 h4)"

text \<open>The SHA-1 of a whole message, hashed by one call: \<open>hashlib.sha1(data).hexdigest()\<close>.\<close>

definition sha1_hex :: "byte list \<Rightarrow> string" where
  "sha1_hex content = sha1_hexdigest (sha1_update sha1_new content)"

section \<open>The file system\<close>

text \<open>
  What the program sees of the operating system, as it is during one run. An open
  binary file is the bytes still to be read; \<open>faulty\<close> says that the device fails with
  an \<open>OSError\<close> once these bytes have been delivered, instead of reporting the end of
  the file.
\<close>

record file_obj =
  unread :: "byte list"
  faulty :: bool

record filesystem =
  listdir :: "string \<Rightarrow> error + string list"
  isdir :: "string \<Rightarrow> bool"
  isfile :: "string \<Rightarrow> bool"
  open_rb :: "string \<Rightarrow> error + file_obj"
  eyed3_load :: "string \<Rightarrow> error + audiofile option"

text \<open>\<open>afile.read(n)\<close> on a buffered binary file: \<open>n\<close> bytes, or fewer at the end of the file.\<close>

definition read :: "file_obj \<Rightarrow> nat \<Rightarrow> error + (byte list \<times> file_obj)" where
  "read afile n =
     (if unread afile = [] \<and> faulty afile then Inl OSError
      else Inr (take n (unread afile), afile\<lparr>unread := drop n (unread afile)\<rparr>))"

section \<open>generate_hash\<close>

definition BLOCKSIZE :: nat where
  "BLOCKSIZE = 65536"

text \<open>
  The \<open>while len(buf) > 0\<close> loop, with the block size as a parameter. Every turn with a
  non-empty \<open>buf\<close> has taken bytes out of the file, so the bytes in \<open>buf\<close> and in the
  file together get fewer.
\<close>

function hash_loop :: "nat \<Rightarrow> sha1_hasher \<Rightarrow> file_obj \<Rightarrow> byte list \<Rightarrow> error + sha1_hasher" where
  "hash_loop bs hasher afile buf =
     (if length buf > 0 then
        (case read afile bs of
           Inl e \<Rightarrow> Inl e
         | Inr (buf', afile') \<Rightarrow> hash_loop bs (sha1_update hasher buf) afile' buf')
      else Inr hasher)"
  by pat_completeness auto
termination
  by (relation "measure (\<lambda>(bs, hasher, afile, buf). length (unread afile) + length buf)")
    (auto simp: read_def min_def split: if_splits)

declare hash_loop.simps [simp del]

definition generate_hash_blocks :: "nat \<Rightarrow> filesystem \<Rightarrow> string \<Rightarrow> error + string" where
  "generate_hash_blocks bs fs name =
     (case open_rb fs name of
        Inl e \<Rightarrow> Inl e
      | Inr afile \<Rightarrow>
          (case read afile bs of
             Inl e \<Rightarrow> Inl e
           | Inr (buf, afile') \<Rightarrow>
               (case hash_loop bs sha1_new afile' buf of
                  Inl e \<Rightarrow> Inl e
                | Inr hasher \<Rightarrow> Inr (sha1_hexdigest hasher))))"

definition generate_hash :: "filesystem \<Rightarrow> string \<Rightarrow> error + string" where
  "generate_hash fs name = generate_hash_blocks BLOCKSIZE fs name"

text \<open>
  \<open>CollatorFile(fname)\<close>: the constructor stores the name, hashes the file and then
  loads its tags; an exception of either step leaves no object.
\<close>

definition CollatorFile_init :: "filesystem \<Rightarrow> string \<Rightarrow> error + CollatorFile" where
  "CollatorFile_init fs name =
     (case generate_hash fs name of
        Inl e \<Rightarrow> Inl e
      | Inr h \<Rightarrow>
          (case eyed3_load fs name of
             Inl e \<Rightarrow> Inl e
           | Inr af \<Rightarrow> Inr \<lparr>fname = name, hash = h, audiofile = af\<rparr>))"

section \<open>build_library\<close>

type_synonym library = "CollatorFile list \<times> string list"

text \<open>
  The body of \<open>for f in found\<close>, run on the entries in order with the two lists built
  so far. \<open>recurse\<close> is the recursive call \<open>build_library(fpath)\<close>.
\<close>

fun scan_entries ::
  "(string \<Rightarrow> error + library) \<Rightarrow> filesystem \<Rightarrow> string \<Rightarrow> string list \<Rightarrow> library \<Rightarrow> error + library"
where
  "scan_entries recurse fs path [] (library, unknowns) = Inr (library, unknowns)"
| "scan_entries recurse fs path (f # found) (library, unknowns) =
     (let fpath = str_replace backslash slash (path_join path f) in
      if isdir fs fpath then
        (case recurse fpath of
           Inl e \<Rightarrow> Inl e
         | Inr (l, u) \<Rightarrow> scan_entries recurse fs path found (library @ l, unknowns @ u))
      else if isfile fs fpath then
        (case CollatorFile_init fs fpath of
           Inl e \<Rightarrow> Inl e
         | Inr ncf \<Rightarrow>
             if is_audio_file ncf then scan_entries recurse fs path found (library @ [ncf], unknowns)
             else scan_entries recurse fs path found (library, unknowns @ [fpath]))
      else scan_entries recurse fs path found (library, unknowns @ [fpath]))"

text \<open>
  \<open>build_library(path)\<close>. The first argument is the number of nested calls the
  interpreter still allows: Python raises \<open>RecursionError\<close> beyond its recursion limit.
  The \<open>debug\<close> flag is \<open>False\<close>, so nothing is printed.
\<close>

fun build_library :: "nat \<Rightarrow> filesystem \<Rightarrow> string \<Rightarrow> error + library" where
  "build_library 0 fs path = Inl RecursionError"
| "build_library (Suc depth) fs path =
     (case listdir fs path of
        Inl e \<Rightarrow> Inl e
      | Inr found \<Rightarrow> scan_entries (build_library depth fs) fs path found ([], []))"

section \<open>The documented pattern of audio file names\<close>

text \<open>
  The pattern in the words of the documentation: a non-empty prefix, a dot, and an
  extension that is exactly \<open>mp3\<close> or \<open>m4a\<close>, in any case of the letters.
\<close>

definition spec_audio_name :: "string \<Rightarrow> bool" where
  "spec_audio_name b =
     (4 < length b \<and> map ascii_lower (drop (length b - 4) b) \<in> {''.mp3'', ''.m4a''})"

section \<open>Paths without backslashes\<close>

text \<open>A pair of collections in which no stored path contains a backslash.\<close>

definition normalized :: "library \<Rightarrow> bool" where
  "normalized r =
     ((\<forall>cf \<in> set (fst r). backslash \<notin> set (fname cf)) \<and> (\<forall>p \<in> set (snd r). backslash \<notin> set p))"

text \<open>A path written with backslashes, as given to the constructor directly.\<close>

definition direct_path :: string where
  "direct_path =
     ''C:'' @ backslash # ''m'' @ backslash # ''x'' @ backslash # ''y'' @ backslash # ''Artist''
       @ backslash # ''Album'' @ backslash # ''t.mp3''"

definition direct_file :: CollatorFile where
  "direct_file = \<lparr>fname = direct_path, hash = [], audiofile = None\<rparr>"

section \<open>A failing construction during a traversal\<close>

text \<open>
  \<open>construction_fails depth fs path e\<close>: the traversal of \<open>path\<close> reaches, in \<open>path\<close>
  itself or in a directory below it, a regular file whose \<open>CollatorFile\<close> cannot be
  constructed because of the exception \<open>e\<close>. An entry is reached when the entries
  before it in its directory have been processed without an exception.
\<close>

inductive construction_fails :: "nat \<Rightarrow> filesystem \<Rightarrow> string \<Rightarrow> error \<Rightarrow> bool" where
  here:
    "listdir fs path = Inr (before @ f # after) \<Longrightarrow>
     scan_entries (build_library depth fs) fs path before ([], []) = Inr acc \<Longrightarrow>
     fpath = str_replace backslash slash (path_join path f) \<Longrightarrow>
     \<not> isdir fs fpath \<Longrightarrow> isfile fs fpath \<Longrightarrow>
     CollatorFile_init fs fpath = Inl e \<Longrightarrow>
     construction_fails (Suc depth) fs path e"
| below:
    "listdir fs path = Inr (before @ f # after) \<Longrightarrow>
     scan_entries (build_library depth fs) fs path before ([], []) = Inr acc \<Longrightarrow>
     fpath = str_replace backslash slash (path_join path f) \<Longrightarrow>
     isdir fs fpath \<Longrightarrow>
     construction_fails depth fs fpath e \<Longrightarrow>
     construction_fails (Suc depth) fs path e"

section \<open>Example file systems\<close>

text \<open>
  A root with \<open>sub/track1.mp3\<close> (tagged, no album field), \<open>readme.txt\<close> and the empty
  directory \<open>emptydir\<close>.
\<close>

definition scenario_fs :: filesystem where
  "scenario_fs =
     \<lparr>listdir = (\<lambda>p. if p = ''root'' then Inr [''sub'', ''readme.txt'', ''emptydir'']
                     else if p = ''root/sub'' then Inr [''track1.mp3'']
                     else if p = ''root/emptydir'' then Inr []
                     else Inl OSError),
      isdir = (\<lambda>p. p \<in> {''root'', ''root/sub'', ''root/emptydir''}),
      isfile = (\<lambda>p. p \<in> {''root/sub/track1.mp3'', ''root/readme.txt''}),
      open_rb = (\<lambda>p. if p = ''root/sub/track1.mp3'' then Inr \<lparr>unread = [0x49, 0x44, 0x33], faulty = False\<rparr>
                     else if p = ''root/readme.txt'' then Inr \<lparr>unread = [0x68, 0x69], faulty = False\<rparr>
                     else Inl OSError),
      eyed3_load = (\<lambda>p. if p = ''root/sub/track1.mp3''
                        then Inr (Some \<lparr>tag = Some \<lparr>title = Some ''Track 1'', artist = Some ''Artist'', album = None\<rparr>\<rparr>)
                        else if p = ''root/readme.txt'' then Inr None
                        else Inl OSError)\<rparr>"

definition track1 :: CollatorFile where
  "track1 =
     \<lparr>fname = ''root/sub/track1.mp3'',
      hash = sha1_hex [0x49, 0x44, 0x33],
      audiofile = Some \<lparr>tag = Some \<lparr>title = Some ''Track 1'', artist = Some ''Artist'', album = None\<rparr>\<rparr>\<rparr>"

text \<open>The bytes of \<open>track1.mp3\<close> once more, under another name in another directory.\<close>

definition renamed_fs :: filesystem where
  "renamed_fs =
     \<lparr>listdir = (\<lambda>p. if p = ''elsewhere'' then Inr [''copy.bin''] else Inl OSError),
      isdir = (\<lambda>p. p = ''elsewhere''),
      isfile = (\<lambda>p. p = ''elsewhere/copy.bin''),
      open_rb = (\<lambda>p. if p = ''elsewhere/copy.bin'' then Inr \<lparr>unread = [0x49, 0x44, 0x33], faulty = False\<rparr>
                     else Inl OSError),
      eyed3_load = (\<lambda>p. if p = ''elsewhere/copy.bin'' then Inr None else Inl OSError)\<rparr>"

text \<open>
  A directory with an audio file, a picture and a symbolic link that points nowhere:
  the link is neither a directory nor a regular file, and it cannot be opened.
\<close>

definition symlink_fs :: filesystem where
  "symlink_fs =
     \<lparr>listdir = (\<lambda>p. if p = ''lib'' then Inr [''song.mp3'', ''cover.jpg'', ''dangling''] else Inl OSError),
      isdir = (\<lambda>p. p = ''lib''),
      isfile = (\<lambda>p. p \<in> {''lib/song.mp3'', ''lib/cover.jpg''}),
      open_rb = (\<lambda>p. if p = ''lib/song.mp3'' then Inr \<lparr>unread = [0x01, 0x02], faulty = False\<rparr>
                     else if p = ''lib/cover.jpg'' then Inr \<lparr>unread = [0xFF, 0xD8], faulty = False\<rparr>
                     else Inl OSError),
      eyed3_load = (\<lambda>p. if p = ''lib/song.mp3'' then Inr (Some \<lparr>tag = None\<rparr>)
                        else if p = ''lib/cover.jpg'' then Inr None
                        else Inl OSError)\<rparr>"

definition song :: CollatorFile where
  "song = \<lparr>fname = ''lib/song.mp3'', hash = sha1_hex [0x01, 0x02], audiofile = Some \<lparr>tag = None\<rparr>\<rparr>"

text \<open>A library in which \<open>sub/locked.mp3\<close> is a regular file that cannot be opened.\<close>

definition locked_fs :: filesystem where
  "locked_fs =
     \<lparr>listdir = (\<lambda>p. if p = ''lib'' then Inr [''notes.txt'', ''sub'', ''last.txt'']
                     else if p = ''lib/sub'' then Inr [''locked.mp3'', ''other.mp3'']
                     else Inl OSError),
      isdir = (\<lambda>p. p \<in> {''lib'', ''lib/sub''}),
      isfile = (\<lambda>p. p \<in> {''lib/notes.txt'', ''lib/last.txt'', ''lib/sub/locked.mp3'', ''lib/sub/other.mp3''}),
      open_rb = (\<lambda>p. if p \<in> {''lib/notes.txt'', ''lib/last.txt'', ''lib/sub/other.mp3''}
                     then Inr \<lparr>unread = [0x2A], faulty = False\<rparr>
                     else Inl OSError),
      eyed3_load = (\<lambda>p. Inr None)\<rparr>"

text \<open>
  A root written with backslashes. The traversal asks the system about the path
  with slashes, which this system takes for the same file.
\<close>

definition backslash_fs :: filesystem where
  "backslash_fs =
     \<lparr>listdir = (\<lambda>p. if p = [CHR ''C'', CHR '':'', backslash, CHR ''m''] then Inr [''t.mp3'', ''x''] else Inl OSError),
      isdir = (\<lambda>p. False),
      isfile = (\<lambda>p. p = ''C:/m/t.mp3''),
      open_rb = (\<lambda>p. if p = ''C:/m/t.mp3'' then Inr \<lparr>unread = [], faulty = False\<rparr> else Inl OSError),
      eyed3_load = (\<lambda>p. Inr None)\<rparr>"

section \<open>Splitting and joining\<close>

lemma str_split_nonempty: "str_split sep s \<noteq> []"
  by (induction s) (auto split: list.splits)

lemma str_split_append_sep:
  "sep \<notin> set w \<Longrightarrow> str_split sep (w @ sep # s) = w # str_split sep s"
  by (induction w) auto

lemma str_split_no_sep: "sep \<notin> set w \<Longrightarrow> str_split sep w = [w]"
  by (induction w) auto

lemma str_split_join:
  "ws \<noteq> [] \<Longrightarrow> \<forall>w \<in> set ws. sep \<notin> set w \<Longrightarrow> str_split sep (str_join sep ws) = ws"
proof (induction sep ws rule: str_join.induct)
  case (1 sep)
  then show ?case by simp
next
  case (2 sep w)
  then show ?case by (simp add: str_split_no_sep)
next
  case (3 sep w v ws)
  then show ?case by (simp add: str_split_append_sep)
qed

lemma str_join_split: "str_join sep (str_split sep s) = s"
proof (induction s)
  case Nil
  show ?case by simp
next
  case (Cons c cs)
  show ?case
  proof (cases "c = sep")
    case True
    with Cons show ?thesis
      by (cases "str_split sep cs") (auto simp: str_split_nonempty)
  next
    case False
    obtain w ws where sp: "str_split sep cs = w # ws"
      using str_split_nonempty [of sep cs] by (cases "str_split sep cs") auto
    with Cons False show ?thesis
      by (cases ws) auto
  qed
qed

lemma length_str_split: "length (str_split sep s) = Suc (count_list s sep)"
proof (induction s)
  case Nil
  show ?case by simp
next
  case (Cons c cs)
  obtain w ws where sp: "str_split sep cs = w # ws"
    using str_split_nonempty [of sep cs] by (cases "str_split sep cs") auto
  with Cons show ?case by auto
qed

section \<open>The positional accessors\<close>

text \<open>
  C1. The claim reads: for every path with exactly 6 segments of the form
  \<open>.../a/b/ARTISTX/ALBUMY/track.mp3\<close>, the artist accessor returns \<open>ARTISTX\<close> and the
  album accessor returns \<open>ALBUMY\<close>. On such a path the segments at the indices
  4 and 5 are \<open>ALBUMY\<close> and \<open>track.mp3\<close>, and these are what the accessors return.
\<close>

theorem path_artist_six_segments_counterexample:
  "length (path_elements \<lparr>fname = ''.../a/b/ARTISTX/ALBUMY/track.mp3'', hash = [], audiofile = None\<rparr>) = 6
   \<and> path_artist \<lparr>fname = ''.../a/b/ARTISTX/ALBUMY/track.mp3'', hash = [], audiofile = None\<rparr>
       = Inr ''ALBUMY''
   \<and> path_album \<lparr>fname = ''.../a/b/ARTISTX/ALBUMY/track.mp3'', hash = [], audiofile = None\<rparr>
       = Inr ''track.mp3''"
  by (simp add: path_artist_def path_album_def path_elements_def py_index_def)

text \<open>
  C1, as the code has it: when four segments come before \<open>ARTISTX/ALBUMY\<close>, whatever
  follows (so a track \<open>s0/s1/s2/s3/ARTISTX/ALBUMY/track.mp3\<close> has seven segments), the
  artist accessor returns \<open>ARTISTX\<close> and the album accessor returns \<open>ALBUMY\<close>.
\<close>

theorem path_artist_album_after_four_segments:
  assumes "length before = 4"
    and "\<forall>w \<in> set (before @ artist_seg # album_seg # rest). slash \<notin> set w"
    and "fname self = str_join slash (before @ artist_seg # album_seg # rest)"
  shows "path_artist self = Inr artist_seg \<and> path_album self = Inr album_seg"
proof -
  have "path_elements self = before @ artist_seg # album_seg # rest"
    unfolding path_elements_def using assms(2,3) by (simp add: str_split_join)
  with assms(1) show ?thesis
    by (simp add: path_artist_def path_album_def py_index_def nth_append)
qed

theorem path_artist_album_after_four_segments_witness:
  "path_artist \<lparr>fname = ''/home/ec2-user/dev.music/ARTISTX/ALBUMY/track.mp3'', hash = [], audiofile = None\<rparr>
     = Inr ''ARTISTX''
   \<and> path_album \<lparr>fname = ''/home/ec2-user/dev.music/ARTISTX/ALBUMY/track.mp3'', hash = [], audiofile = None\<rparr>
     = Inr ''ALBUMY''"
  using path_artist_album_after_four_segments
    [of "[[], ''home'', ''ec2-user'', ''dev.music'']" "''ARTISTX''" "''ALBUMY''" "[''track.mp3'']"
        "\<lparr>fname = ''/home/ec2-user/dev.music/ARTISTX/ALBUMY/track.mp3'', hash = [], audiofile = None\<rparr>"]
  by simp

text \<open>
  C2. The claim reads: with fewer than 6 segments both accessors fail. A path of five
  segments has a segment at index 4, and the artist accessor returns it.
\<close>

theorem path_artist_five_segments_counterexample:
  "length (path_elements \<lparr>fname = ''a/b/c/d/e'', hash = [], audiofile = None\<rparr>) < 6
   \<and> path_artist \<lparr>fname = ''a/b/c/d/e'', hash = [], audiofile = None\<rparr> = Inr ''e''"
  by (simp add: path_artist_def path_elements_def py_index_def)

text \<open>
  C2, as the code has it: the path has one segment more than it has slashes; the artist
  accessor returns the segment at index 4 when there are at least 5 segments and
  fails with an index error otherwise; the album accessor returns the segment at index
  5 when there are at least 6 segments and fails with an index error otherwise.
\<close>

theorem path_accessors_index_or_fail:
  "length (path_elements self) = Suc (count_list (fname self) slash)
   \<and> path_artist self =
       (if 5 \<le> length (path_elements self) then Inr (path_elements self ! 4) else Inl IndexError)
   \<and> path_album self =
       (if 6 \<le> length (path_elements self) then Inr (path_elements self ! 5) else Inl IndexError)"
  by (auto simp: path_artist_def path_album_def path_elements_def py_index_def length_str_split)

section \<open>The tag accessors\<close>

text \<open>
  C8. Each tag accessor returns the value of its own field of the tag container, and
  \<open>None\<close> when the field is not set, when the file has no tag container, or when the
  tag reader returned no object; it never raises. A field that is not set does not
  change what the other two accessors return.
\<close>

theorem tag_accessors_never_raise:
  "title_tag self =
     Inr (case audiofile self of None \<Rightarrow> None
          | Some a \<Rightarrow> (case tag a of None \<Rightarrow> None | Some t \<Rightarrow> title t))
   \<and> artist_tag self =
     Inr (case audiofile self of None \<Rightarrow> None
          | Some a \<Rightarrow> (case tag a of None \<Rightarrow> None | Some t \<Rightarrow> artist t))
   \<and> album_tag self =
     Inr (case audiofile self of None \<Rightarrow> None
          | Some a \<Rightarrow> (case tag a of None \<Rightarrow> None | Some t \<Rightarrow> album t))
   \<and> title_tag (self\<lparr>audiofile := Some \<lparr>tag = Some \<lparr>title = Some ti, artist = Some ar, album = None\<rparr>\<rparr>\<rparr>)
       = Inr (Some ti)
   \<and> artist_tag (self\<lparr>audiofile := Some \<lparr>tag = Some \<lparr>title = Some ti, artist = Some ar, album = None\<rparr>\<rparr>\<rparr>)
       = Inr (Some ar)
   \<and> album_tag (self\<lparr>audiofile := Some \<lparr>tag = Some \<lparr>title = Some ti, artist = Some ar, album = None\<rparr>\<rparr>\<rparr>)
       = Inr None"
  by (simp add: title_tag_def artist_tag_def album_tag_def except_AttributeError_def
      lookup_tag_def getattr_tag_def getattr_field_def split: option.splits)

section \<open>Hashing\<close>

lemma absorb_append:
  "absorb h (d @ e) = (case absorb h d of (h', r) \<Rightarrow> absorb h' (r @ e))"
proof (induction h d rule: absorb.induct)
  case (1 h d)
  show ?case
  proof (cases "length d < 64")
    case True
    then show ?thesis by (simp add: absorb.simps [of h d])
  next
    case False
    then have "absorb h (d @ e) = absorb (sha1_compress h (take 64 d)) (drop 64 d @ e)"
      by (simp add: absorb.simps [of h "d @ e"])
    also have "\<dots> = (case absorb (sha1_compress h (take 64 d)) (drop 64 d) of (h', r) \<Rightarrow> absorb h' (r @ e))"
      using False by (rule "1.IH")
    also have "absorb (sha1_compress h (take 64 d)) (drop 64 d) = absorb h d"
      using False by (simp add: absorb.simps [of h d])
    finally show ?thesis .
  qed
qed

lemma sha1_update_append:
  "sha1_update (sha1_update hasher a) b = sha1_update hasher (a @ b)"
proof -
  obtain h r where a: "absorb (regs hasher) (pending hasher @ a) = (h, r)"
    by (cases "absorb (regs hasher) (pending hasher @ a)")
  have "absorb (regs hasher) (pending hasher @ a @ b) = absorb h (r @ b)"
    using absorb_append [of "regs hasher" "pending hasher @ a" b] a by simp
  with a show ?thesis
    by (simp add: sha1_update_def split: prod.splits)
qed

lemma hash_loop_end: "hash_loop bs hasher afile [] = Inr hasher"
  by (simp add: hash_loop.simps)

lemma hash_loop_readable:
  "buf \<noteq> [] \<Longrightarrow> 0 < bs \<Longrightarrow> \<not> faulty afile \<Longrightarrow>
   hash_loop bs hasher afile buf = Inr (sha1_update hasher (buf @ unread afile))"
proof (induction bs hasher afile buf rule: hash_loop.induct)
  case (1 bs hasher afile buf)
  let ?afile' = "afile\<lparr>unread := drop bs (unread afile)\<rparr>"
  have rd: "read afile bs = Inr (take bs (unread afile), ?afile')"
    using "1.prems" by (simp add: read_def)
  have step: "hash_loop bs hasher afile buf =
      hash_loop bs (sha1_update hasher buf) ?afile' (take bs (unread afile))"
    using "1.prems"(1) rd by (simp add: hash_loop.simps [of bs hasher afile buf])
  show ?case
  proof (cases "unread afile = []")
    case True
    with step show ?thesis by (simp add: hash_loop_end)
  next
    case False
    with "1.prems" have ne: "take bs (unread afile) \<noteq> []" by (cases "unread afile") (auto simp: take_Cons')
    have "hash_loop bs (sha1_update hasher buf) ?afile' (take bs (unread afile)) =
        Inr (sha1_update (sha1_update hasher buf) (take bs (unread afile) @ unread ?afile'))"
      using "1.prems" ne rd by (intro "1.IH") auto
    with step show ?thesis by (simp add: sha1_update_append)
  qed
qed

lemma hash_loop_faulty:
  "buf \<noteq> [] \<Longrightarrow> 0 < bs \<Longrightarrow> faulty afile \<Longrightarrow> hash_loop bs hasher afile buf = Inl OSError"
proof (induction bs hasher afile buf rule: hash_loop.induct)
  case (1 bs hasher afile buf)
  show ?case
  proof (cases "unread afile = []")
    case True
    with "1.prems" show ?thesis
      by (simp add: hash_loop.simps [of bs hasher afile buf] read_def)
  next
    case False
    let ?afile' = "afile\<lparr>unread := drop bs (unread afile)\<rparr>"
    have rd: "read afile bs = Inr (take bs (unread afile), ?afile')"
      using False by (simp add: read_def)
    from False "1.prems" have ne: "take bs (unread afile) \<noteq> []"
      by (cases "unread afile") (auto simp: take_Cons')
    have "hash_loop bs (sha1_update hasher buf) ?afile' (take bs (unread afile)) = Inl OSError"
      using "1.prems" ne rd by (intro "1.IH") auto
    with "1.prems"(1) rd show ?thesis
      by (simp add: hash_loop.simps [of bs hasher afile buf])
  qed
qed

lemma sha1_update_new_Nil: "sha1_update sha1_new [] = sha1_new"
  by (simp add: sha1_update_def sha1_new_def absorb.simps [of _ "[]"])

lemma generate_hash_blocks_readable:
  assumes "0 < bs" and "open_rb fs name = Inr afile" and "\<not> faulty afile"
  shows "generate_hash_blocks bs fs name = Inr (sha1_hex (unread afile))"
proof (cases "unread afile = []")
  case True
  with assms show ?thesis
    by (simp add: generate_hash_blocks_def read_def hash_loop_end sha1_hex_def sha1_update_new_Nil)
next
  case False
  with assms(1) have ne: "take bs (unread afile) \<noteq> []"
    by (cases "unread afile") (auto simp: take_Cons')
  have "hash_loop bs sha1_new (afile\<lparr>unread := drop bs (unread afile)\<rparr>) (take bs (unread afile))
      = Inr (sha1_update sha1_new (take bs (unread afile) @ drop bs (unread afile)))"
    using hash_loop_readable [OF ne assms(1), of "afile\<lparr>unread := drop bs (unread afile)\<rparr>" sha1_new]
      assms(3) by simp
  with assms False show ?thesis
    by (simp add: generate_hash_blocks_def read_def sha1_hex_def)
qed

lemma generate_hash_blocks_faulty:
  assumes "0 < bs" and "open_rb fs name = Inr afile" and "faulty afile"
  shows "generate_hash_blocks bs fs name = Inl OSError"
proof (cases "unread afile = []")
  case True
  with assms show ?thesis
    by (simp add: generate_hash_blocks_def read_def)
next
  case False
  with assms(1) have ne: "take bs (unread afile) \<noteq> []"
    by (cases "unread afile") (auto simp: take_Cons')
  have "hash_loop bs sha1_new (afile\<lparr>unread := drop bs (unread afile)\<rparr>) (take bs (unread afile))
      = Inl OSError"
    using hash_loop_faulty [OF ne assms(1), of "afile\<lparr>unread := drop bs (unread afile)\<rparr>" sha1_new]
      assms(3) by simp
  with assms False show ?thesis
    by (simp add: generate_hash_blocks_def read_def)
qed

lemma generate_hash_blocks_open_fails:
  "open_rb fs name = Inl e \<Longrightarrow> generate_hash_blocks bs fs name = Inl e"
  by (simp add: generate_hash_blocks_def)

lemma generate_hash_eval:
  "generate_hash fs name =
     (case open_rb fs name of
        Inl e \<Rightarrow> Inl e
      | Inr afile \<Rightarrow> if faulty afile then Inl OSError else Inr (sha1_hex (unread afile)))"
proof (cases "open_rb fs name")
  case (Inl e)
  then show ?thesis
    by (simp add: generate_hash_def generate_hash_blocks_open_fails)
next
  case (Inr afile)
  have pos: "0 < BLOCKSIZE" by (simp add: BLOCKSIZE_def)
  show ?thesis
  proof (cases "faulty afile")
    case True
    with Inr pos show ?thesis
      by (simp add: generate_hash_def generate_hash_blocks_faulty)
  next
    case False
    with Inr pos show ?thesis
      by (simp add: generate_hash_def generate_hash_blocks_readable)
  qed
qed

text \<open>
  C4. For a file that can be opened and read to its end, \<open>generate_hash\<close> returns the
  SHA-1 hex digest of the whole content, hashed by a single \<open>update\<close>; reading in
  blocks of any positive size gives this same digest.
\<close>

theorem generate_hash_is_sha1_of_content:
  assumes "open_rb fs name = Inr afile" and "\<not> faulty afile" and "0 < bs"
  shows "generate_hash fs name = Inr (sha1_hexdigest (sha1_update sha1_new (unread afile)))
       \<and> generate_hash_blocks bs fs name = generate_hash fs name"
proof -
  have "0 < BLOCKSIZE" by (simp add: BLOCKSIZE_def)
  with assms(1,2) have "generate_hash fs name = Inr (sha1_hex (unread afile))"
    unfolding generate_hash_def by (rule generate_hash_blocks_readable [rotated])
  moreover have "generate_hash_blocks bs fs name = Inr (sha1_hex (unread afile))"
    using assms by (simp add: generate_hash_blocks_readable)
  ultimately show ?thesis by (simp add: sha1_hex_def)
qed

theorem generate_hash_is_sha1_of_content_witness:
  "open_rb scenario_fs ''root/sub/track1.mp3'' = Inr \<lparr>unread = [0x49, 0x44, 0x33], faulty = False\<rparr>
   \<and> (0::nat) < 2
   \<and> generate_hash scenario_fs ''root/sub/track1.mp3''
       = Inr (sha1_hexdigest (sha1_update sha1_new [0x49, 0x44, 0x33]))
   \<and> generate_hash_blocks 2 scenario_fs ''root/sub/track1.mp3''
       = generate_hash scenario_fs ''root/sub/track1.mp3''"
  using generate_hash_is_sha1_of_content
    [of scenario_fs "''root/sub/track1.mp3''" "\<lparr>unread = [0x49, 0x44, 0x33], faulty = False\<rparr>" 2]
  by (simp add: scenario_fs_def)

text \<open>
  C9. Two readable files with the same bytes have the same digest, whatever their
  names and directories; and a file that opens to the same content at two invocations
  gets the same result at both.
\<close>

theorem generate_hash_depends_on_content_only:
  "(open_rb fs1 name1 = Inr afile1 \<and> open_rb fs2 name2 = Inr afile2
      \<and> unread afile1 = unread afile2 \<and> \<not> faulty afile1 \<and> \<not> faulty afile2
    \<longrightarrow> generate_hash fs1 name1 = generate_hash fs2 name2)
   \<and> (open_rb fs1 name1 = open_rb fs2 name1
    \<longrightarrow> generate_hash fs1 name1 = generate_hash fs2 name1)"
  by (simp add: generate_hash_eval)

theorem generate_hash_depends_on_content_only_witness:
  "open_rb scenario_fs ''root/sub/track1.mp3'' = Inr \<lparr>unread = [0x49, 0x44, 0x33], faulty = False\<rparr>
   \<and> open_rb renamed_fs ''elsewhere/copy.bin'' = Inr \<lparr>unread = [0x49, 0x44, 0x33], faulty = False\<rparr>
   \<and> generate_hash scenario_fs ''root/sub/track1.mp3'' = generate_hash renamed_fs ''elsewhere/copy.bin''
   \<and> open_rb scenario_fs ''root/sub/track1.mp3''
       = open_rb (scenario_fs\<lparr>isfile := \<lambda>p. p = ''root/sub/track1.mp3''\<rparr>) ''root/sub/track1.mp3''
   \<and> generate_hash scenario_fs ''root/sub/track1.mp3''
       = generate_hash (scenario_fs\<lparr>isfile := \<lambda>p. p = ''root/sub/track1.mp3''\<rparr>) ''root/sub/track1.mp3''"
  using generate_hash_depends_on_content_only
    [of scenario_fs "''root/sub/track1.mp3''" "\<lparr>unread = [0x49, 0x44, 0x33], faulty = False\<rparr>"
        renamed_fs "''elsewhere/copy.bin''" "\<lparr>unread = [0x49, 0x44, 0x33], faulty = False\<rparr>"]
    generate_hash_depends_on_content_only
    [of scenario_fs "''root/sub/track1.mp3''" "\<lparr>unread = [0x49, 0x44, 0x33], faulty = False\<rparr>"
        "scenario_fs\<lparr>isfile := \<lambda>p. p = ''root/sub/track1.mp3''\<rparr>" "''root/sub/track1.mp3''"
        "\<lparr>unread = [0x49, 0x44, 0x33], faulty = False\<rparr>"]
  by (simp add: scenario_fs_def renamed_fs_def)

section \<open>The loop over the entries\<close>

lemma scan_entries_append:
  "scan_entries recurse fs path (xs @ ys) acc =
     (case scan_entries recurse fs path xs acc of
        Inl e \<Rightarrow> Inl e
      | Inr acc' \<Rightarrow> scan_entries recurse fs path ys acc')"
proof (induction xs arbitrary: acc)
  case Nil
  show ?case by (cases acc) simp
next
  case (Cons f xs)
  obtain library unknowns where acc: "acc = (library, unknowns)" by (cases acc)
  show ?case
    unfolding acc by (simp add: Cons.IH Let_def split: sum.splits prod.splits)
qed

lemma CollatorFile_init_fname:
  "CollatorFile_init fs name = Inr ncf \<Longrightarrow> fname ncf = name"
  by (auto simp: CollatorFile_init_def split: sum.splits)

lemma CollatorFile_init_eval:
  "CollatorFile_init fs name =
     (case open_rb fs name of
        Inl e \<Rightarrow> Inl e
      | Inr afile \<Rightarrow>
          if faulty afile then Inl OSError
          else (case eyed3_load fs name of
                  Inl e \<Rightarrow> Inl e
                | Inr af \<Rightarrow> Inr \<lparr>fname = name, hash = sha1_hex (unread afile), audiofile = af\<rparr>))"
  by (simp add: CollatorFile_init_def generate_hash_eval split: sum.splits)

lemma build_library_step:
  assumes "listdir fs path = Inr (before @ f # after)"
    and "scan_entries (build_library depth fs) fs path before ([], []) = Inr (lib, unk)"
  shows "build_library (Suc depth) fs path =
           scan_entries (build_library depth fs) fs path (f # after) (lib, unk)"
  using assms by (simp add: scan_entries_append)

lemma not_backslash_replaced: "backslash \<notin> set (str_replace backslash slash s)"
  by (auto simp: str_replace_def)

lemma scan_entries_normalized:
  assumes "\<And>p r. recurse p = Inr r \<Longrightarrow> normalized r"
  shows "normalized acc \<Longrightarrow> scan_entries recurse fs path found acc = Inr r \<Longrightarrow> normalized r"
proof (induction found arbitrary: acc)
  case Nil
  then show ?case by (cases acc) simp
next
  case (Cons f found)
  obtain library unknowns where acc: "acc = (library, unknowns)" by (cases acc)
  let ?fpath = "str_replace backslash slash (path_join path f)"
  show ?case
  proof (cases "isdir fs ?fpath")
    case True
    with Cons.prems(2) acc obtain l u where rec: "recurse ?fpath = Inr (l, u)"
      and rest: "scan_entries recurse fs path found (library @ l, unknowns @ u) = Inr r"
      by (auto simp: Let_def split: sum.splits)
    from assms [OF rec] Cons.prems(1) acc have "normalized (library @ l, unknowns @ u)"
      by (auto simp: normalized_def)
    then show ?thesis using rest by (rule Cons.IH)
  next
    case notdir: False
    show ?thesis
    proof (cases "isfile fs ?fpath")
      case True
      with notdir Cons.prems(2) acc obtain ncf where init: "CollatorFile_init fs ?fpath = Inr ncf"
        and rest: "scan_entries recurse fs path found
            (if is_audio_file ncf then (library @ [ncf], unknowns) else (library, unknowns @ [?fpath])) = Inr r"
        by (auto simp: Let_def split: sum.splits if_splits)
      from init have "fname ncf = ?fpath" by (rule CollatorFile_init_fname)
      with Cons.prems(1) acc
      have "normalized (if is_audio_file ncf then (library @ [ncf], unknowns) else (library, unknowns @ [?fpath]))"
        by (auto simp: normalized_def not_backslash_replaced)
      then show ?thesis using rest by (rule Cons.IH)
    next
      case False
      with notdir Cons.prems(2) acc
      have rest: "scan_entries recurse fs path found (library, unknowns @ [?fpath]) = Inr r"
        by (simp add: Let_def)
      from Cons.prems(1) acc have "normalized (library, unknowns @ [?fpath])"
        by (auto simp: normalized_def not_backslash_replaced)
      then show ?thesis using rest by (rule Cons.IH)
    qed
  qed
qed

lemma build_library_normalized:
  "build_library depth fs path = Inr r \<Longrightarrow> normalized r"
proof (induction depth arbitrary: path r)
  case 0
  then show ?case by simp
next
  case (Suc depth)
  from Suc.prems obtain found where
    scan: "scan_entries (build_library depth fs) fs path found ([], []) = Inr r"
    by (auto split: sum.splits)
  have "normalized ([], [])" by (simp add: normalized_def)
  with Suc.IH show ?case using scan by (rule scan_entries_normalized)
qed

lemma length_split_replace:
  "length (str_split slash (str_replace backslash slash s)) =
     length (str_split slash s) + count_list s backslash"
proof -
  have "count_list (str_replace backslash slash s) slash = count_list s slash + count_list s backslash"
    by (induction s) (auto simp: str_replace_def)
  then show ?thesis by (simp add: length_str_split)
qed

end
